theory Spec2Isabelle
  imports Complex_Main
begin

section \<open>Text\<close>

text \<open>
  Python strings are modelled as \<open>string\<close>, one \<open>char\<close> per code point, for ASCII text:
  the decimal digits are \<open>0\<close> to \<open>9\<close>, the cased characters are the 52 ASCII letters, and
  the white space removed by \<open>str.strip()\<close> is tab, line feed, vertical tab, form feed,
  carriage return, the four separators 28 to 31 and the blank. A character above 127 is
  kept as an uncased symbol that is neither a digit nor white space.
\<close>

definition is_digit :: "char \<Rightarrow> bool" where
  "is_digit c = (let n = (of_char c :: nat) in 48 \<le> n \<and> n \<le> 57)"

definition digit_val :: "char \<Rightarrow> nat" where
  "digit_val c = of_char c - 48"

definition digit_char :: "nat \<Rightarrow> char" where
  "digit_char d = char_of (48 + d)"

definition is_upper :: "char \<Rightarrow> bool" where
  "is_upper c = (let n = (of_char c :: nat) in 65 \<le> n \<and> n \<le> 90)"

definition is_lower :: "char \<Rightarrow> bool" where
  "is_lower c = (let n = (of_char c :: nat) in 97 \<le> n \<and> n \<le> 122)"

definition is_cased :: "char \<Rightarrow> bool" where
  "is_cased c = (is_upper c \<or> is_lower c)"

definition is_space :: "char \<Rightarrow> bool" where
  "is_space c = (let n = (of_char c :: nat) in (9 \<le> n \<and> n \<le> 13) \<or> (28 \<le> n \<and> n \<le> 32))"

definition lower_char :: "char \<Rightarrow> char" where
  "lower_char c = (if is_upper c then char_of ((of_char c :: nat) + 32) else c)"

definition upper_char :: "char \<Rightarrow> char" where
  "upper_char c = (if is_lower c then char_of ((of_char c :: nat) - 32) else c)"

text \<open>\<open>str.lower()\<close> and \<open>str.upper()\<close>.\<close>

definition str_lower :: "string \<Rightarrow> string" where
  "str_lower s = map lower_char s"

definition str_upper :: "string \<Rightarrow> string" where
  "str_upper s = map upper_char s"

text \<open>\<open>str.strip()\<close>: the white space at both ends is removed.\<close>

definition str_strip :: "string \<Rightarrow> string" where
  "str_strip s = rev (dropWhile is_space (rev (dropWhile is_space s)))"

text \<open>
  \<open>str.title()\<close>: a cased character is put in upper case when the character before it
  is not cased (or there is none), in lower case otherwise.
\<close>

fun title_from :: "bool \<Rightarrow> string \<Rightarrow> string" where
  "title_from prev [] = []"
| "title_from prev (c # cs) =
     (if prev then lower_char c else upper_char c) # title_from (is_cased c) cs"

definition str_title :: "string \<Rightarrow> string" where
  "str_title s = title_from False s"

text \<open>\<open>s.startswith(p)\<close> and \<open>p in s\<close>.\<close>

fun starts_with :: "string \<Rightarrow> string \<Rightarrow> bool" where
  "starts_with [] s = True"
| "starts_with (p # ps) [] = False"
| "starts_with (p # ps) (c # cs) = (p = c \<and> starts_with ps cs)"


text \<open>
  \<open>s.replace(old, "")\<close> for a non-empty \<open>old\<close>: the occurrences of \<open>old\<close> are removed
  from left to right, without overlap, in one pass.
\<close>

function str_remove :: "string \<Rightarrow> string \<Rightarrow> string" where
  "str_remove old s =
     (if old = [] \<or> s = [] then s
      else if starts_with old s then str_remove old (drop (length old) s)
      else hd s # str_remove old (tl s))"
  by pat_completeness auto
termination
  by (relation "measure (\<lambda>(old, s). length s)") auto

text \<open>\<open>str(n)\<close> for an integer \<open>n \<ge> 0\<close>, and \<open>int(ds)\<close> for a string of digits.\<close>

fun py_str :: "nat \<Rightarrow> string" where
  "py_str n = (if n < 10 then [digit_char n] else py_str (n div 10) @ [digit_char (n mod 10)])"

definition py_int :: "string \<Rightarrow> nat" where
  "py_int ds = foldl (\<lambda>a c. 10 * a + digit_val c) 0 ds"

section \<open>Cells, errors and the library\<close>

text \<open>
  A cell of a data frame: a text, a number, a timestamp (nanoseconds), or the missing
  value (\<open>NaN\<close>, \<open>None\<close>, \<open>NaT\<close>, \<open><NA>\<close>). Infinite floats are not modelled.
\<close>

datatype cell = Str string | Num real | Ts int | Missing

datatype error = OverflowError | KeyError string

text \<open>
  What pandas computes on its own and the repository only calls: the text
  \<open>astype(str)\<close> gives a number or a timestamp, the number \<open>pd.to_numeric\<close> reads from a
  text, and the timestamp \<open>pd.to_datetime\<close> reads from a cell (\<open>None\<close> when it reads none).
  Every definition takes them as the parameter \<open>P\<close>, and every theorem holds for all of them.
\<close>

record pandas =
  num_text :: "real \<Rightarrow> string"
  ts_text :: "int \<Rightarrow> string"
  parse_number :: "string \<Rightarrow> real option"
  parse_datetime :: "cell \<Rightarrow> int option"

text \<open>\<open>Series.astype(str)\<close> on one cell: a missing value becomes the text \<open>nan\<close>.\<close>

fun astype_str :: "pandas \<Rightarrow> cell \<Rightarrow> string" where
  "astype_str P (Str s) = s"
| "astype_str P (Num x) = num_text P x"
| "astype_str P (Ts t) = ts_text P t"
| "astype_str P Missing = ''nan''"

text \<open>
  \<open>pd.to_numeric(col, errors="coerce")\<close> on one cell: a text that is no number becomes
  missing, a timestamp becomes its count of nanoseconds.
\<close>

fun to_numeric :: "pandas \<Rightarrow> cell \<Rightarrow> cell" where
  "to_numeric P (Str s) = (case parse_number P s of Some x \<Rightarrow> Num x | None \<Rightarrow> Missing)"
| "to_numeric P (Num x) = Num x"
| "to_numeric P (Ts t) = Num (of_int t)"
| "to_numeric P Missing = Missing"


text \<open>
  \<open>col.notna()\<close> and \<open>col >= floor\<close> on one cell of a numeric column: the comparison with
  a missing value is false.
\<close>

definition notna :: "cell \<Rightarrow> bool" where
  "notna c = (c \<noteq> Missing)"

fun ge_floor :: "real \<Rightarrow> cell \<Rightarrow> bool" where
  "ge_floor m (Num x) = (m \<le> x)"
| "ge_floor m c = False"

text \<open>Errors are values: the first statement that raises decides the result.\<close>

fun bind_err :: "error + 'a \<Rightarrow> ('a \<Rightarrow> error + 'b) \<Rightarrow> error + 'b" where
  "bind_err (Inl e) f = Inl e"
| "bind_err (Inr x) f = f x"

fun mapM_err :: "('a \<Rightarrow> error + 'b) \<Rightarrow> 'a list \<Rightarrow> error + 'b list" where
  "mapM_err f [] = Inr []"
| "mapM_err f (x # xs) = bind_err (f x) (\<lambda>y. bind_err (mapM_err f xs) (\<lambda>ys. Inr (y # ys)))"

section \<open>Business keys\<close>

text \<open>
  \<open>Series.str.extract(r"(\d+)")[0]\<close>: the first maximal run of digits of the text, and
  the missing value when the text has no digit.
\<close>

definition extract_digits :: "string \<Rightarrow> string option" where
  "extract_digits s =
     (let run = takeWhile is_digit (dropWhile (\<lambda>c. \<not> is_digit c) s)
      in if run = [] then None else Some run)"

text \<open>\<open>.fillna("0")\<close> on the extracted column.\<close>

definition fillna0 :: "string option \<Rightarrow> string" where
  "fillna0 x = (case x of None \<Rightarrow> ''0'' | Some ds \<Rightarrow> ds)"

text \<open>
  \<open>.astype(int)\<close> on a column of digit strings converts to 64-bit integers: a value
  above \<open>2^63 - 1\<close> raises instead of wrapping.
\<close>

definition int64_max :: nat where
  "int64_max = 2 ^ 63 - 1"

definition astype_int :: "string \<Rightarrow> error + nat" where
  "astype_int ds = (if py_int ds \<le> int64_max then Inr (py_int ds) else Inl OverflowError)"

text \<open>
  \<open>standardize_id\<close> of \<open>clean_orders\<close> on one value; \<open>clean_customers\<close>, \<open>clean_products\<close>
  and \<open>clean_stores\<close> repeat its two lines with their prefix.
\<close>

definition standardize_id :: "pandas \<Rightarrow> string \<Rightarrow> cell \<Rightarrow> error + string" where
  "standardize_id P prefix v =
     bind_err (astype_int (fillna0 (extract_digits (astype_str P v))))
       (\<lambda>n. Inr (prefix @ ''-'' @ py_str n))"

section \<open>Data frames\<close>

text \<open>
  A \<open>DataFrame\<close>: its column names in order and its rows in order, a row giving the cell
  of every column. The index of a row is its position: the frames of this program are
  read from CSV files and filtered, so their index labels are distinct.
\<close>

record frame =
  columns :: "string list"
  rows :: "(string \<Rightarrow> cell) list"

text \<open>\<open>df[c]\<close> as a value, which raises \<open>KeyError\<close> without the column.\<close>

definition get_col :: "'a frame_scheme \<Rightarrow> string \<Rightarrow> error + cell list" where
  "get_col df c =
     (if c \<in> set (columns df) then Inr (map (\<lambda>r. r c) (rows df)) else Inl (KeyError c))"

text \<open>\<open>df[c] = vs\<close>: the column is replaced, or added last when it is new.\<close>

definition set_col :: "frame \<Rightarrow> string \<Rightarrow> cell list \<Rightarrow> frame" where
  "set_col df c vs =
     df\<lparr>columns := (if c \<in> set (columns df) then columns df else columns df @ [c]),
        rows := map (\<lambda>(r, v). r(c := v)) (zip (rows df) vs)\<rparr>"

text \<open>\<open>df[mask]\<close>: the rows whose entry of the mask is true.\<close>

definition select_rows :: "frame \<Rightarrow> bool list \<Rightarrow> frame" where
  "select_rows df keep = df\<lparr>rows := map snd (filter fst (zip keep (rows df)))\<rparr>"

text \<open>\<open>df.at[idx, c] = v\<close>.\<close>

definition set_at :: "frame \<Rightarrow> nat \<Rightarrow> string \<Rightarrow> cell \<Rightarrow> frame" where
  "set_at df idx c v = df\<lparr>rows := (rows df)[idx := ((rows df) ! idx)(c := v)]\<rparr>"

text \<open>
  The statements of the cleaners: \<open>df[c] = f(df[c])\<close> for a function of one cell, the same
  for a conversion that may raise, and \<open>df = df[p(df[c])]\<close>.
\<close>

definition apply_col :: "(cell \<Rightarrow> cell) \<Rightarrow> string \<Rightarrow> frame \<Rightarrow> error + frame" where
  "apply_col f c df = bind_err (get_col df c) (\<lambda>vs. Inr (set_col df c (map f vs)))"

definition apply_col_err :: "(cell \<Rightarrow> error + cell) \<Rightarrow> string \<Rightarrow> frame \<Rightarrow> error + frame" where
  "apply_col_err f c df =
     bind_err (get_col df c) (\<lambda>vs. bind_err (mapM_err f vs) (\<lambda>ws. Inr (set_col df c ws)))"

definition where_col :: "(cell \<Rightarrow> bool) \<Rightarrow> string \<Rightarrow> frame \<Rightarrow> error + frame" where
  "where_col p c df = bind_err (get_col df c) (\<lambda>vs. Inr (select_rows df (map p vs)))"

fun run_steps :: "(frame \<Rightarrow> error + frame) list \<Rightarrow> frame \<Rightarrow> error + frame" where
  "run_steps [] df = Inr df"
| "run_steps (f # fs) df = bind_err (f df) (run_steps fs)"

text \<open>
  \<open>duplicated(keep="first")\<close> on a list of keys: an entry is true when its key occurred
  before. Two missing values are the same key.
\<close>

fun duplicated_from :: "'k list \<Rightarrow> 'k list \<Rightarrow> bool list" where
  "duplicated_from seen [] = []"
| "duplicated_from seen (k # ks) = (k \<in> set seen) # duplicated_from (k # seen) ks"

definition duplicated :: "'k list \<Rightarrow> bool list" where
  "duplicated ks = duplicated_from [] ks"

definition row_key :: "string list \<Rightarrow> (string \<Rightarrow> cell) \<Rightarrow> cell list" where
  "row_key key_cols r = map r key_cols"

text \<open>\<open>df.duplicated(subset=..., keep="first")\<close> and \<open>df.drop_duplicates(subset=..., keep="first")\<close>.\<close>

definition df_duplicated :: "string list \<Rightarrow> frame \<Rightarrow> error + bool list" where
  "df_duplicated key_cols df =
     (case filter (\<lambda>c. c \<notin> set (columns df)) key_cols of
        [] \<Rightarrow> Inr (duplicated (map (row_key key_cols) (rows df)))
      | c # cs \<Rightarrow> Inl (KeyError c))"

definition drop_duplicates :: "string list \<Rightarrow> frame \<Rightarrow> error + frame" where
  "drop_duplicates key_cols df =
     bind_err (df_duplicated key_cols df) (\<lambda>dup. Inr (select_rows df (map Not dup)))"

section \<open>The cleaners\<close>

text \<open>The text transforms, on one cell.\<close>

definition lower_strip :: "pandas \<Rightarrow> cell \<Rightarrow> cell" where
  "lower_strip P c = Str (str_strip (str_lower (astype_str P c)))"

definition strip_title :: "pandas \<Rightarrow> cell \<Rightarrow> cell" where
  "strip_title P c = Str (str_title (str_strip (astype_str P c)))"

definition strip_upper :: "pandas \<Rightarrow> cell \<Rightarrow> cell" where
  "strip_upper P c = Str (str_upper (str_strip (astype_str P c)))"

text \<open>
  \<open>.astype(str).str.lower().str.replace("region", "", regex=False).str.strip().str.title()\<close>,
  the same in \<open>clean_regions\<close> and \<open>clean_stores\<close>.
\<close>

definition region_text :: "string \<Rightarrow> string" where
  "region_text s = str_title (str_strip (str_remove ''region'' (str_lower s)))"

definition region_name_norm :: "pandas \<Rightarrow> cell \<Rightarrow> cell" where
  "region_name_norm P c = Str (region_text (astype_str P c))"

text \<open>
  \<open>.str.lower().str.strip()\<close> without \<open>astype(str)\<close>, as \<open>clean_customers\<close> has it: a cell
  that is no text becomes missing.
\<close>

fun str_lower_strip :: "cell \<Rightarrow> cell" where
  "str_lower_strip (Str s) = Str (str_strip (str_lower s))"
| "str_lower_strip c = Missing"

definition standardize_cell :: "pandas \<Rightarrow> string \<Rightarrow> cell \<Rightarrow> error + cell" where
  "standardize_cell P prefix v = bind_err (standardize_id P prefix v) (\<lambda>s. Inr (Str s))"

subsection \<open>\<open>clean_regions\<close>\<close>

definition clean_regions :: "pandas \<Rightarrow> frame \<Rightarrow> error + frame" where
  "clean_regions P = run_steps [apply_col (region_name_norm P) ''region_name'']"

subsection \<open>\<open>clean_customers\<close>\<close>

definition normalize_customers :: "pandas \<Rightarrow> frame \<Rightarrow> error + frame" where
  "normalize_customers P = run_steps
     [apply_col_err (standardize_cell P ''cust'') ''customer_code'',
      apply_col str_lower_strip ''customer_segment'']"

definition clean_customers :: "pandas \<Rightarrow> frame \<Rightarrow> error + frame" where
  "clean_customers P = run_steps
     [normalize_customers P, drop_duplicates [''customer_code'']]"

subsection \<open>\<open>clean_products\<close>\<close>

text \<open>Lines 16 to 24, lines 25 and 26, and line 29.\<close>

definition normalize_products :: "pandas \<Rightarrow> frame \<Rightarrow> error + frame" where
  "normalize_products P = run_steps
     [apply_col (strip_title P) ''product_name'',
      apply_col (strip_title P) ''category'',
      apply_col_err (standardize_cell P ''prd'') ''product_code'',
      apply_col (to_numeric P) ''base_price'']"

definition drop_invalid_products :: "frame \<Rightarrow> error + frame" where
  "drop_invalid_products = run_steps
     [where_col notna ''base_price'',
      where_col (ge_floor 0) ''base_price'']"

definition clean_products :: "pandas \<Rightarrow> frame \<Rightarrow> error + frame" where
  "clean_products P = run_steps
     [normalize_products P, drop_invalid_products, drop_duplicates [''product_code'']]"

subsection \<open>\<open>clean_stores\<close>\<close>

text \<open>Lines 15 to 35, lines 36 and 37, and line 40.\<close>

definition normalize_stores :: "pandas \<Rightarrow> frame \<Rightarrow> error + frame" where
  "normalize_stores P = run_steps
     [apply_col (strip_upper P) ''state'',
      apply_col (region_name_norm P) ''region_name'',
      apply_col_err (standardize_cell P ''store'') ''store_code'',
      apply_col (strip_title P) ''city'',
      apply_col (strip_title P) ''store_name'',
      apply_col (to_numeric P) ''square_feet'']"

definition drop_invalid_stores :: "frame \<Rightarrow> error + frame" where
  "drop_invalid_stores = run_steps
     [where_col notna ''square_feet'',
      where_col (ge_floor 1) ''square_feet'']"

definition clean_stores :: "pandas \<Rightarrow> frame \<Rightarrow> error + frame" where
  "clean_stores P = run_steps
     [normalize_stores P, drop_invalid_stores, drop_duplicates [''store_code'']]"

subsection \<open>\<open>clean_orders\<close>\<close>

text \<open>Lines 19 to 34: the status and type texts and the four key columns.\<close>

definition normalize_order_fields :: "pandas \<Rightarrow> frame \<Rightarrow> error + frame" where
  "normalize_order_fields P = run_steps
     [apply_col (lower_strip P) ''order_status'',
      apply_col (lower_strip P) ''order_type'',
      apply_col_err (standardize_cell P ''ord'') ''order_code'',
      apply_col_err (standardize_cell P ''cust'') ''customer_code'',
      apply_col_err (standardize_cell P ''store'') ''store_code'',
      apply_col_err (standardize_cell P ''prd'') ''product_code'']"

text \<open>Lines 37 and 38: the loop over the four numeric columns.\<close>

definition coerce_order_numbers :: "pandas \<Rightarrow> frame \<Rightarrow> error + frame" where
  "coerce_order_numbers P = run_steps
     (map (\<lambda>col. apply_col (to_numeric P) col)
        [''line_number'', ''quantity'', ''unit_price'', ''unit_cost''])"

text \<open>Lines 41 to 44: the rows that are dropped.\<close>

definition drop_invalid_orders :: "frame \<Rightarrow> error + frame" where
  "drop_invalid_orders = run_steps
     [where_col notna ''unit_cost'',
      where_col (ge_floor 0) ''quantity'',
      where_col (ge_floor 0) ''unit_price'',
      where_col (ge_floor 0) ''unit_cost'']"

text \<open>
  Lines 49 to 63. The number of an order code is read as in \<open>standardize_id\<close>; the loop
  over \<open>enumerate(dup_indices, start=1)\<close> is \<open>reassign\<close>, started at offset 1.
\<close>

definition order_num :: "pandas \<Rightarrow> cell \<Rightarrow> error + nat" where
  "order_num P c = astype_int (fillna0 (extract_digits (astype_str P c)))"

fun reassign :: "nat \<Rightarrow> nat \<Rightarrow> nat list \<Rightarrow> frame \<Rightarrow> frame" where
  "reassign max_order_num offset [] df = df"
| "reassign max_order_num offset (idx # idxs) df =
     reassign max_order_num (Suc offset) idxs
       (set_at df idx ''order_code'' (Str (''ord-'' @ py_str (max_order_num + offset))))"

definition renumber_duplicates :: "pandas \<Rightarrow> frame \<Rightarrow> error + frame" where
  "renumber_duplicates P df =
     bind_err (get_col df ''order_code'') (\<lambda>codes.
     bind_err (mapM_err (order_num P) codes) (\<lambda>order_nums.
     bind_err (df_duplicated [''order_code'', ''line_number''] df) (\<lambda>dup_mask.
       let max_order_num = (if order_nums = [] then 0 else Max (set order_nums));
           dup_indices = filter (\<lambda>i. dup_mask ! i) [0..<length (rows df)]
       in Inr (reassign max_order_num 1 dup_indices df))))"

definition clean_orders :: "pandas \<Rightarrow> frame \<Rightarrow> error + frame" where
  "clean_orders P = run_steps
     [normalize_order_fields P, coerce_order_numbers P, drop_invalid_orders,
      renumber_duplicates P]"

subsection \<open>\<open>run_cleaning\<close>\<close>

text \<open>
  Lines 43 to 55, the filter of the cleaned orders on the store and product codes of the
  cleaned dimension tables.
\<close>

definition enforce_ri :: "frame \<Rightarrow> frame \<Rightarrow> frame \<Rightarrow> error + frame" where
  "enforce_ri stores_clean products_clean orders_clean =
     bind_err (get_col stores_clean ''store_code'') (\<lambda>valid_store_codes.
     bind_err (get_col products_clean ''product_code'') (\<lambda>valid_product_codes.
     bind_err (get_col orders_clean ''store_code'') (\<lambda>store_codes.
     bind_err (get_col orders_clean ''product_code'') (\<lambda>product_codes.
       Inr (select_rows orders_clean
         (map (\<lambda>(s, p).
            (s \<in> set valid_store_codes \<or> s = Str ''store-0'') \<and>
            (p \<in> set valid_product_codes \<or> p = Str ''prd-0''))
          (zip store_codes product_codes)))))))"

text \<open>
  The five tables \<open>run_cleaning\<close> writes, from the five it has read and passed through
  \<open>auto_parse_dates\<close> (lines 32 to 55; reading and writing the files is left out).
\<close>

record 'f tables =
  regions :: 'f
  products :: 'f
  stores :: 'f
  customers :: 'f
  orders :: 'f

definition run_cleaning :: "pandas \<Rightarrow> frame tables \<Rightarrow> error + frame tables" where
  "run_cleaning P raw =
     bind_err (clean_regions P (regions raw)) (\<lambda>regions_clean.
     bind_err (clean_products P (products raw)) (\<lambda>products_clean.
     bind_err (clean_stores P (stores raw)) (\<lambda>stores_clean.
     bind_err (clean_customers P (customers raw)) (\<lambda>customers_clean.
     bind_err (clean_orders P (orders raw)) (\<lambda>orders_clean.
     bind_err (enforce_ri stores_clean products_clean orders_clean) (\<lambda>orders_kept.
       Inr \<lparr>regions = regions_clean, products = products_clean, stores = stores_clean,
            customers = customers_clean, orders = orders_kept\<rparr>))))))"

subsection \<open>Deduplication and floors, in the words of the specification\<close>

text \<open>
  Of the rows with the same key the first in table order is kept and the rest are
  dropped; a numeric cell is present and at least its floor.
\<close>

fun first_occurrences :: "('r \<Rightarrow> 'k) \<Rightarrow> 'r list \<Rightarrow> 'r list" where
  "first_occurrences key [] = []"
| "first_occurrences key (r # rs) = r # filter (\<lambda>x. key x \<noteq> key r) (first_occurrences key rs)"

definition present_ge :: "real \<Rightarrow> cell \<Rightarrow> bool" where
  "present_ge m c = (\<exists>x. c = Num x \<and> m \<le> x)"

subsection \<open>The renumbering, in the words of the specification\<close>

text \<open>
  The key of an order line, a collision (a row whose key occurred in an earlier row), the
  count \<open>k\<close> of the collisions up to a row, and the largest number among the order codes
  of a table (0 for the empty table).
\<close>

definition order_key :: "(string \<Rightarrow> cell) \<Rightarrow> cell list" where
  "order_key r = [r ''order_code'', r ''line_number'']"

definition is_collision :: "(string \<Rightarrow> cell) list \<Rightarrow> nat \<Rightarrow> bool" where
  "is_collision rs i = (order_key (rs ! i) \<in> set (map order_key (take i rs)))"

definition collisions_upto :: "(string \<Rightarrow> cell) list \<Rightarrow> nat \<Rightarrow> nat" where
  "collisions_upto rs i = length (filter (is_collision rs) [0..<Suc i])"

definition code_number :: "pandas \<Rightarrow> (string \<Rightarrow> cell) \<Rightarrow> nat" where
  "code_number P r = py_int (fillna0 (extract_digits (astype_str P (r ''order_code''))))"

definition max_code_number :: "pandas \<Rightarrow> (string \<Rightarrow> cell) list \<Rightarrow> nat" where
  "max_code_number P rs = (if rs = [] then 0 else Max (set (map (code_number P) rs)))"

text \<open>Three order lines with the key \<open>(ord-5, 1)\<close>.\<close>

definition example_order_row :: "string \<Rightarrow> cell" where
  "example_order_row = (\<lambda>c. Missing)(''order_code'' := Str ''ord-5'', ''line_number'' := Num 1)"

definition example_orders :: frame where
  "example_orders = \<lparr>columns = [''order_code'', ''line_number''],
     rows = [example_order_row, example_order_row, example_order_row]\<rparr>"

subsection \<open>Example tables\<close>

definition example_customers :: frame where
  "example_customers = \<lparr>columns =
       [''customer_code'', ''signup_date'', ''customer_segment'', ''email'', ''loyalty_id''],
     rows =
       [(\<lambda>c. Missing)(''customer_code'' := Str ''CUST007'', ''customer_segment'' := Str ''Retail'',
           ''email'' := Str ''a@x.org''),
        (\<lambda>c. Missing)(''customer_code'' := Str ''cust-007'', ''customer_segment'' := Str ''Trade'',
           ''email'' := Str ''b@x.org''),
        (\<lambda>c. Missing)(''customer_code'' := Str ''8'', ''customer_segment'' := Str ''Retail'',
           ''email'' := Str ''c@x.org'')]\<rparr>"

definition example_regions :: frame where
  "example_regions = \<lparr>columns = [''region_code'', ''region_name'', ''active_flag''],
     rows =
       [(\<lambda>c. Missing)(''region_code'' := Str ''R1'', ''region_name'' := Str ''North Region'',
           ''active_flag'' := Str ''Y''),
        (\<lambda>c. Missing)(''region_code'' := Str ''R1'', ''region_name'' := Str ''North'',
           ''active_flag'' := Str ''Y'')]\<rparr>"

text \<open>The twelve columns of the order lines, and one valid order line.\<close>

definition order_columns :: "string list" where
  "order_columns = [''order_code'', ''order_ts'', ''delivery_ts'', ''store_code'',
     ''customer_code'', ''order_type'', ''order_status'', ''line_number'', ''product_code'',
     ''quantity'', ''unit_price'', ''unit_cost'']"

definition example_order_line :: "string \<Rightarrow> cell" where
  "example_order_line = (\<lambda>c. Missing)
     (''order_code'' := Str ''ORD-001'', ''order_ts'' := Ts 0, ''store_code'' := Str ''S-1'',
      ''customer_code'' := Str ''C-1'', ''order_type'' := Str ''Online'',
      ''order_status'' := Str ''Shipped'', ''line_number'' := Num 1,
      ''product_code'' := Str ''P-1'', ''quantity'' := Num 2, ''unit_price'' := Num 3,
      ''unit_cost'' := Num 1)"

text \<open>
  Cleaned stores and products with one key each, and four cleaned order lines.
\<close>

definition example_stores_clean :: frame where
  "example_stores_clean = \<lparr>columns = [''store_code''],
     rows = [(\<lambda>c. Missing)(''store_code'' := Str ''store-1'')]\<rparr>"

definition example_products_clean :: frame where
  "example_products_clean = \<lparr>columns = [''product_code''],
     rows = [(\<lambda>c. Missing)(''product_code'' := Str ''prd-1'')]\<rparr>"

definition example_orders_clean :: frame where
  "example_orders_clean = \<lparr>columns = [''store_code'', ''product_code'', ''customer_code''],
     rows =
       [(\<lambda>c. Missing)(''store_code'' := Str ''store-0'', ''product_code'' := Str ''prd-1'',
           ''customer_code'' := Str ''cust-42''),
        (\<lambda>c. Missing)(''store_code'' := Str ''store-999'', ''product_code'' := Str ''prd-1'',
           ''customer_code'' := Str ''cust-0''),
        (\<lambda>c. Missing)(''store_code'' := Str ''store-1'', ''product_code'' := Str ''prd-0'',
           ''customer_code'' := Str ''cust-42''),
        (\<lambda>c. Missing)(''store_code'' := Str ''store-1'', ''product_code'' := Str ''prd-7'',
           ''customer_code'' := Str ''cust-0'')]\<rparr>"

section \<open>\<open>auto_parse_dates\<close>\<close>

text \<open>
  \<open>auto_parse_dates\<close> copies each frame and assigns columns of the copy in place, so the
  frames live in a store: a list of frames, a frame being referred to by its position.
  \<open>df.copy()\<close> adds a frame to the store; \<open>df[col] = f(df[col])\<close> replaces the frame at a
  position.
\<close>

type_synonym store = "frame list"









declare py_str.simps [simp del]

declare str_remove.simps [simp del]

subsection \<open>Decimal texts and the first run of digits\<close>

lemma digit_char_is_digit: "d < 10 \<Longrightarrow> is_digit (digit_char d)"
  by (simp add: is_digit_def digit_char_def Let_def)

lemma digit_val_digit_char: "d < 10 \<Longrightarrow> digit_val (digit_char d) = d"
  by (simp add: digit_char_def digit_val_def)


lemma py_int_snoc: "py_int (ds @ [c]) = 10 * py_int ds + digit_val c"
  by (simp add: py_int_def)

lemma py_str_nonempty: "py_str n \<noteq> []"
  by (induction n rule: py_str.induct) (subst py_str.simps, simp)

lemma py_str_digits: "list_all is_digit (py_str n)"
proof (induction n rule: py_str.induct)
  case (1 n)
  show ?case
  proof (cases "n < 10")
    case True
    then show ?thesis by (subst py_str.simps) (simp add: digit_char_is_digit)
  next
    case False
    with 1 show ?thesis by (subst py_str.simps) (simp add: digit_char_is_digit)
  qed
qed

lemma py_int_py_str: "py_int (py_str n) = n"
proof (induction n rule: py_str.induct)
  case (1 n)
  show ?case
  proof (cases "n < 10")
    case True
    then show ?thesis by (subst py_str.simps) (simp add: py_int_def digit_val_digit_char)
  next
    case False
    with 1 show ?thesis
      by (subst py_str.simps) (simp add: py_int_snoc digit_val_digit_char)
  qed
qed


lemma extract_digits_run:
  assumes "list_all (\<lambda>c. \<not> is_digit c) pre" "run \<noteq> []" "list_all is_digit run"
    "post = [] \<or> \<not> is_digit (hd post)"
  shows "extract_digits (pre @ run @ post) = Some run"
proof -
  from assms(2,3) have "is_digit (hd run)" by (cases run) auto
  with assms(1,2) have "dropWhile (\<lambda>c. \<not> is_digit c) (pre @ run @ post) = run @ post"
    by (induction pre) (auto simp: dropWhile_append3 hd_append intro: dropWhile_eq_self_iff[THEN iffD2])
  moreover from assms(3,4) have "takeWhile is_digit (run @ post) = run"
    by (cases post) (auto simp: list_all_iff takeWhile_append2 )
  ultimately show ?thesis using assms(2) by (simp add: extract_digits_def)
qed



lemma digit_char_eval:
  "digit_char 0 = CHR ''0''" "digit_char 1 = CHR ''1''" "digit_char 2 = CHR ''2''"
  "digit_char 3 = CHR ''3''" "digit_char 4 = CHR ''4''" "digit_char 5 = CHR ''5''"
  "digit_char 6 = CHR ''6''" "digit_char 7 = CHR ''7''" "digit_char 8 = CHR ''8''"
  "digit_char 9 = CHR ''9''" "digit_char (Suc 0) = CHR ''1''"
  by code_simp+

lemmas key_eval = standardize_id_def extract_digits_def fillna0_def astype_int_def py_int_def
  is_digit_def digit_val_def int64_max_def digit_char_eval py_str.simps




section \<open>Frames and the renumbering of order lines\<close>

lemma get_col_Inr: "c \<in> set (columns df) \<Longrightarrow> get_col df c = Inr (map (\<lambda>r. r c) (rows df))"
  by (simp add: get_col_def)

lemma mapM_err_map:
  "(\<And>x. x \<in> set xs \<Longrightarrow> f x = Inr (g x)) \<Longrightarrow> mapM_err f xs = Inr (map g xs)"
  by (induction xs) simp_all


lemma length_duplicated_from: "length (duplicated_from seen ks) = length ks"
  by (induction ks arbitrary: seen) simp_all

lemma duplicated_from_nth:
  "i < length ks \<Longrightarrow> duplicated_from seen ks ! i = (ks ! i \<in> set seen \<union> set (take i ks))"
proof (induction ks arbitrary: seen i)
  case Nil
  then show ?case by simp
next
  case (Cons k ks)
  show ?case
  proof (cases i)
    case 0
    then show ?thesis by simp
  next
    case (Suc j)
    with Cons.prems have "j < length ks" by simp
    from Cons.IH[OF this, of "k # seen"] Suc show ?thesis by auto
  qed
qed

lemma length_duplicated: "length (duplicated ks) = length ks"
  by (simp add: duplicated_def length_duplicated_from)

lemma duplicated_nth: "i < length ks \<Longrightarrow> duplicated ks ! i = (ks ! i \<in> set (take i ks))"
  by (simp add: duplicated_def duplicated_from_nth)

lemma set_at_length: "length (rows (set_at df i c v)) = length (rows df)"
  by (simp add: set_at_def)

lemma reassign_columns: "columns (reassign m off idxs df) = columns df"
  by (induction idxs arbitrary: off df) (simp_all add: set_at_def)

lemma reassign_length: "length (rows (reassign m off idxs df)) = length (rows df)"
  by (induction idxs arbitrary: off df) (simp_all add: set_at_def)

lemma reassign_nth:
  assumes "distinct idxs" "\<forall>j\<in>set idxs. j < length (rows df)" "i < length (rows df)"
  shows "rows (reassign m off idxs df) ! i =
     (if i \<in> set idxs
      then (rows df ! i)(''order_code'' :=
             Str (''ord-'' @ py_str (m + off + length (takeWhile (\<lambda>j. j \<noteq> i) idxs))))
      else rows df ! i)"
  using assms
proof (induction idxs arbitrary: off df)
  case Nil
  then show ?case by simp
next
  case (Cons idx idxs)
  let ?df' = "set_at df idx ''order_code'' (Str (''ord-'' @ py_str (m + off)))"
  have len: "length (rows ?df') = length (rows df)" by (rule set_at_length)
  from Cons.prems have d: "distinct idxs" and b: "\<forall>j\<in>set idxs. j < length (rows ?df')"
    and i: "i < length (rows ?df')" and idx: "idx \<notin> set idxs" "idx < length (rows df)"
    by (simp_all only: len distinct.simps list.set ball_simps insert_iff, simp_all)
  note IH = Cons.IH[OF d b i, of "Suc off"]
  show ?case
  proof (cases "i = idx")
    case True
    with idx IH Cons.prems(3) show ?thesis by (simp add: set_at_def)
  next
    case False
    with IH Cons.prems(3) show ?thesis by (simp add: set_at_def)
  qed
qed

lemma takeWhile_filter_upt:
  assumes "i < n" "p i"
  shows "takeWhile (\<lambda>j. j \<noteq> i) (filter p [0..<n]) = filter p [0..<i]"
proof -
  from assms(1) have "[0..<n] = [0..<i] @ i # [Suc i..<n]"
    by (metis le_add2 less_imp_add_positive upt_add_eq_append upt_conv_Cons zero_le le_eq_less_or_eq less_eq_nat.simps(1) upt_rec)
  then have "filter p [0..<n] = filter p [0..<i] @ i # filter p [Suc i..<n]"
    using assms(2) by simp
  moreover have "takeWhile (\<lambda>j. j \<noteq> i) (filter p [0..<i] @ i # filter p [Suc i..<n])
      = filter p [0..<i] @ takeWhile (\<lambda>j. j \<noteq> i) (i # filter p [Suc i..<n])"
    by (rule takeWhile_append2) auto
  ultimately show ?thesis by simp
qed


lemma order_num_Inr:
  "code_number P r \<le> int64_max \<Longrightarrow> order_num P (r ''order_code'') = Inr (code_number P r)"
  by (simp add: order_num_def code_number_def astype_int_def)

lemma df_duplicated_Inr:
  "list_all (\<lambda>c. c \<in> set (columns df)) key_cols \<Longrightarrow>
   df_duplicated key_cols df = Inr (duplicated (map (row_key key_cols) (rows df)))"
proof -
  assume "list_all (\<lambda>c. c \<in> set (columns df)) key_cols"
  then have "filter (\<lambda>c. c \<notin> set (columns df)) key_cols = []"
    by (simp add: list_all_iff)
  then show ?thesis by (simp add: df_duplicated_def)
qed

lemma order_key_row_key: "row_key [''order_code'', ''line_number''] = order_key"
  by (rule ext) (simp add: row_key_def order_key_def)

lemma py_str_inj: "py_str a = py_str b \<Longrightarrow> a = b"
  by (metis py_int_py_str)

lemma code_number_new:
  "r ''order_code'' = Str (''ord-'' @ py_str n) \<Longrightarrow> code_number P r = n"
proof -
  assume a: "r ''order_code'' = Str (''ord-'' @ py_str n)"
  have "extract_digits (''ord-'' @ py_str n @ []) = Some (py_str n)"
    by (rule extract_digits_run) (simp_all add: py_str_nonempty py_str_digits is_digit_def)
  with a show ?thesis by (simp add: code_number_def fillna0_def py_int_py_str)
qed

lemma renumber_duplicates_Inr:
  assumes cols: "''order_code'' \<in> set (columns df)" "''line_number'' \<in> set (columns df)"
    and range: "list_all (\<lambda>r. code_number P r \<le> int64_max) (rows df)"
  shows "renumber_duplicates P df =
     Inr (reassign (max_code_number P (rows df)) 1
            (filter (is_collision (rows df)) [0..<length (rows df)]) df)"
proof -
  have 1: "get_col df ''order_code'' = Inr (map (\<lambda>r. r ''order_code'') (rows df))"
    using cols by (simp add: get_col_Inr)
  have 2: "mapM_err (order_num P) (map (\<lambda>r. r ''order_code'') (rows df))
      = Inr (map (code_number P) (rows df))"
  proof -
    have "mapM_err (order_num P \<circ> (\<lambda>r. r ''order_code'')) (rows df)
        = Inr (map (code_number P) (rows df))"
      using range by (intro mapM_err_map) (simp add: list_all_iff order_num_Inr)
    moreover have "mapM_err (f \<circ> g) xs = mapM_err f (map g xs)" for f :: "cell \<Rightarrow> error + nat"
      and g :: "(string \<Rightarrow> cell) \<Rightarrow> cell" and xs
      by (induction xs) simp_all
    ultimately show ?thesis by simp
  qed
  have 3: "df_duplicated [''order_code'', ''line_number''] df
      = Inr (duplicated (map order_key (rows df)))"
    using cols by (simp add: df_duplicated_Inr order_key_row_key)
  have 4: "filter (\<lambda>i. duplicated (map order_key (rows df)) ! i) [0..<length (rows df)]
      = filter (is_collision (rows df)) [0..<length (rows df)]"
    by (rule filter_cong) (simp_all add: duplicated_nth is_collision_def take_map)
  have 5: "(if map (code_number P) (rows df) = [] then 0
            else Max (set (map (code_number P) (rows df)))) = max_code_number P (rows df)"
    by (simp add: max_code_number_def)
  show ?thesis
    unfolding renumber_duplicates_def 1 bind_err.simps 2 3 Let_def 4 5 ..
qed

text \<open>
  C1. The renumbering step of \<open>clean_orders\<close> (lines 49 to 63), on a table that has the two
  key columns and whose order codes hold numbers of at most \<open>2^63 - 1\<close>, as every table
  has that comes out of the normalisation of the codes: it returns a table with the same
  columns and as many rows, in which no two rows have the same
  \<open>(order_code, line_number)\<close>; a row that is the first with its key is unchanged, and the
  \<open>k\<close>-th collision in table order gets the order code \<open>ord-(max + k)\<close>, all its other
  cells unchanged.
\<close>

theorem renumber_duplicates_unique:
  assumes cols: "''order_code'' \<in> set (columns df)" "''line_number'' \<in> set (columns df)"
    and range: "list_all (\<lambda>r. code_number P r \<le> int64_max) (rows df)"
  shows "\<exists>out. renumber_duplicates P df = Inr out
     \<and> columns out = columns df
     \<and> length (rows out) = length (rows df)
     \<and> distinct (map order_key (rows out))
     \<and> list_all (\<lambda>i. rows out ! i =
          (if is_collision (rows df) i
           then (rows df ! i)(''order_code'' :=
                  Str (''ord-'' @ py_str (max_code_number P (rows df) + collisions_upto (rows df) i)))
           else rows df ! i)) [0..<length (rows df)]"
proof -
  let ?rs = "rows df"
  let ?n = "length ?rs"
  let ?m = "max_code_number P ?rs"
  let ?idxs = "filter (is_collision ?rs) [0..<?n]"
  let ?out = "reassign ?m 1 ?idxs df"
  have res: "renumber_duplicates P df = Inr ?out"
    using assms by (rule renumber_duplicates_Inr)
  have len: "length (rows ?out) = ?n" by (rule reassign_length)
  have nth: "rows ?out ! i =
      (if is_collision ?rs i
       then (?rs ! i)(''order_code'' := Str (''ord-'' @ py_str (?m + collisions_upto ?rs i)))
       else ?rs ! i)" if i: "i < ?n" for i
  proof -
    have "rows ?out ! i =
      (if i \<in> set ?idxs
       then (?rs ! i)(''order_code'' :=
              Str (''ord-'' @ py_str (?m + 1 + length (takeWhile (\<lambda>j. j \<noteq> i) ?idxs))))
       else ?rs ! i)"
      using i by (intro reassign_nth) auto
    moreover have "collisions_upto ?rs i = 1 + length (takeWhile (\<lambda>j. j \<noteq> i) ?idxs)"
      if "is_collision ?rs i"
      using that i by (simp add: takeWhile_filter_upt collisions_upto_def)
    ultimately show ?thesis using i by (auto simp: add.assoc)
  qed
  have mono: "collisions_upto ?rs i < collisions_upto ?rs j"
    if "i < j" "is_collision ?rs j" for i j
  proof -
    from that(1) have "[0..<j] = [0..<Suc i] @ [Suc i..<j]"
      using upt_add_eq_append[of 0 "Suc i" "j - Suc i"] by simp
    then have "[0..<Suc j] = [0..<Suc i] @ [Suc i..<j] @ [j]" by simp
    with that(2) show ?thesis by (simp add: collisions_upto_def)
  qed
  have pos: "0 < collisions_upto ?rs i" if "is_collision ?rs i" for i
    using that by (simp add: collisions_upto_def)
  have bound: "code_number P (?rs ! i) \<le> ?m" if "i < ?n" for i
  proof -
    from that have "?rs \<noteq> []" by auto
    moreover from that have "code_number P (?rs ! i) \<in> set (map (code_number P) ?rs)" by simp
    ultimately show ?thesis by (simp add: max_code_number_def del: set_map)
  qed
  have neq: "order_key (rows ?out ! i) \<noteq> order_key (rows ?out ! j)"
    if ij: "i < j" "j < ?n" for i j
  proof
    assume eq: "order_key (rows ?out ! i) = order_key (rows ?out ! j)"
    from ij have i: "i < ?n" by simp
    consider (nn) "\<not> is_collision ?rs i" "\<not> is_collision ?rs j"
      | (dd) "is_collision ?rs i" "is_collision ?rs j"
      | (dn) "is_collision ?rs i" "\<not> is_collision ?rs j"
      | (nd) "\<not> is_collision ?rs i" "is_collision ?rs j"
      by blast
    then show False
    proof cases
      case nn
      with eq nth[OF i] nth[OF ij(2)] have "order_key (?rs ! i) = order_key (?rs ! j)" by simp
      moreover from ij have "?rs ! i \<in> set (take j ?rs)"
        by (metis i in_set_conv_nth length_take min_less_iff_conj nth_take)
      ultimately have "order_key (?rs ! j) \<in> order_key ` set (take j ?rs)"
        by (metis imageI)
      then have "is_collision ?rs j" by (simp add: is_collision_def)
      with nn show False by simp
    next
      case dd
      with eq nth[OF i] nth[OF ij(2)]
      have "py_str (?m + collisions_upto ?rs i) = py_str (?m + collisions_upto ?rs j)"
        by (simp add: order_key_def)
      then have "collisions_upto ?rs i = collisions_upto ?rs j" by (auto dest: py_str_inj)
      with mono[OF ij(1) dd(2)] show False by simp
    next
      case dn
      with eq nth[OF i] nth[OF ij(2)]
      have "(?rs ! j) ''order_code'' = Str (''ord-'' @ py_str (?m + collisions_upto ?rs i))"
        by (simp add: order_key_def)
      then have "code_number P (?rs ! j) = ?m + collisions_upto ?rs i" by (rule code_number_new)
      with bound[OF ij(2)] pos[OF dn(1)] show False by simp
    next
      case nd
      with eq nth[OF i] nth[OF ij(2)]
      have "(?rs ! i) ''order_code'' = Str (''ord-'' @ py_str (?m + collisions_upto ?rs j))"
        by (simp add: order_key_def)
      then have "code_number P (?rs ! i) = ?m + collisions_upto ?rs j" by (rule code_number_new)
      with bound[OF i] pos[OF nd(2)] show False by simp
    qed
  qed
  have dist: "distinct (map order_key (rows ?out))"
    unfolding distinct_conv_nth
  proof (intro allI impI)
    fix i j
    assume "i < length (map order_key (rows ?out))" "j < length (map order_key (rows ?out))" "i \<noteq> j"
    then have "i < ?n" "j < ?n" "i < j \<or> j < i" by (auto simp: reassign_length)
    then show "map order_key (rows ?out) ! i \<noteq> map order_key (rows ?out) ! j"
      using neq[of i j] neq[of j i] by (auto simp: reassign_length)
  qed
  have all: "list_all (\<lambda>i. rows ?out ! i =
          (if is_collision ?rs i
           then (?rs ! i)(''order_code'' :=
                  Str (''ord-'' @ py_str (?m + collisions_upto ?rs i)))
           else ?rs ! i)) [0..<?n]"
    using nth by (simp add: list_all_iff)
  from res reassign_columns len dist all show ?thesis by blast
qed


lemma list3: "length xs = 3 \<Longrightarrow> xs = [xs ! 0, xs ! 1, xs ! 2]"
  by (cases xs; cases "tl xs"; cases "tl (tl xs)") auto

text \<open>
  The rows \<open>(ord-5, 1), (ord-5, 1), (ord-5, 1)\<close> become \<open>(ord-5, 1), (ord-6, 1), (ord-7, 1)\<close>.
\<close>

theorem renumber_duplicates_unique_witness:
  "\<forall>P. \<exists>out. renumber_duplicates P example_orders = Inr out
     \<and> map order_key (rows out) =
         [[Str ''ord-5'', Num 1], [Str ''ord-6'', Num 1], [Str ''ord-7'', Num 1]]"
proof
  fix P
  let ?r = example_order_row
  let ?rs = "[?r, ?r, ?r]"
  have R: "rows example_orders = ?rs" and C: "columns example_orders = [''order_code'', ''line_number'']"
    by (simp_all add: example_orders_def)
  have cn: "code_number P ?r = 5"
    by (simp add: code_number_def example_order_row_def extract_digits_def fillna0_def
        is_digit_def py_int_def digit_val_def)
  have m: "max_code_number P ?rs = 5" by (simp add: max_code_number_def cn)
  have c: "\<not> is_collision ?rs 0" "is_collision ?rs (Suc 0)" "is_collision ?rs (Suc (Suc 0))"
    by (simp_all add: is_collision_def)
  have k: "collisions_upto ?rs (Suc 0) = 1" "collisions_upto ?rs (Suc (Suc 0)) = 2"
    using c by (simp_all add: collisions_upto_def)
  have s: "py_str 6 = ''6''" "py_str 7 = ''7''" by (simp_all add: py_str.simps digit_char_eval)
  have h1: "''order_code'' \<in> set (columns example_orders)"
    and h2: "''line_number'' \<in> set (columns example_orders)"
    and h3: "list_all (\<lambda>r. code_number P r \<le> int64_max) (rows example_orders)"
    by (simp_all add: R C cn int64_max_def)
  from renumber_duplicates_unique [OF h1 h2 h3]
  obtain out where out: "renumber_duplicates P example_orders = Inr out"
    and len: "length (rows out) = length (rows example_orders)"
    and N: "list_all (\<lambda>i. rows out ! i =
          (if is_collision (rows example_orders) i
           then (rows example_orders ! i)(''order_code'' :=
                  Str (''ord-'' @ py_str (max_code_number P (rows example_orders)
                     + collisions_upto (rows example_orders) i)))
           else rows example_orders ! i)) [0..<length (rows example_orders)]"
    by blast
  have u: "[0..<length ?rs] = [0, Suc 0, Suc (Suc 0)]" by (simp add: upt_rec)
  from N have 0: "rows out ! 0 = ?r"
    and 1: "rows out ! Suc 0 = ?r(''order_code'' := Str ''ord-6'')"
    and 2: "rows out ! Suc (Suc 0) = ?r(''order_code'' := Str ''ord-7'')"
    unfolding R u by (simp_all add: c k m s)
  from len have "length (rows out) = 3" by (simp add: R)
  from list3[OF this] have "rows out = [rows out ! 0, rows out ! Suc 0, rows out ! Suc (Suc 0)]"
    by (simp add: numeral_2_eq_2)
  then have "map order_key (rows out) =
      [order_key (rows out ! 0), order_key (rows out ! Suc 0), order_key (rows out ! Suc (Suc 0))]"
    by (metis list.simps(8) list.simps(9))
  then have fin: "map order_key (rows out) =
         [[Str ''ord-5'', Num 1], [Str ''ord-6'', Num 1], [Str ''ord-7'', Num 1]]"
    by (simp add: 0 1 2 order_key_def example_order_row_def)
  show "\<exists>out. renumber_duplicates P example_orders = Inr out
     \<and> map order_key (rows out) =
         [[Str ''ord-5'', Num 1], [Str ''ord-6'', Num 1], [Str ''ord-7'', Num 1]]"
    by (rule exI[of _ out]) (simp only: out fin)
qed

section \<open>Statements of the cleaners\<close>

lemma bind_err_Inr_iff: "bind_err m f = Inr y \<longleftrightarrow> (\<exists>x. m = Inr x \<and> f x = Inr y)"
  by (cases m) auto

lemma run_steps_Cons_Inr:
  "run_steps (f # fs) df = Inr out \<longleftrightarrow> (\<exists>d. f df = Inr d \<and> run_steps fs d = Inr out)"
  by (simp add: bind_err_Inr_iff)

lemma run_steps_Nil_Inr: "run_steps [] df = Inr out \<longleftrightarrow> out = df"
  by auto

lemma get_col_Inr_iff:
  "get_col df c = Inr vs \<longleftrightarrow> c \<in> set (columns df) \<and> vs = map (\<lambda>r. r c) (rows df)"
  by (auto simp: get_col_def)




lemma apply_col_err_Inr_iff:
  "apply_col_err f c df = Inr out \<longleftrightarrow>
     c \<in> set (columns df) \<and>
     (\<exists>ws. mapM_err f (map (\<lambda>r. r c) (rows df)) = Inr ws \<and>
        out = df\<lparr>rows := map (\<lambda>(r, v). r(c := v)) (zip (rows df) ws)\<rparr>)"
  by (auto simp: apply_col_err_def bind_err_Inr_iff get_col_Inr_iff set_col_def)

lemma select_rows_map: "select_rows df (map p (rows df)) = df\<lparr>rows := filter p (rows df)\<rparr>"
proof -
  have "map snd (filter fst (zip (map p rs) rs)) = filter p rs" for rs :: "(string \<Rightarrow> cell) list"
    by (induction rs) simp_all
  then show ?thesis by (simp add: select_rows_def)
qed

lemma where_col_Inr_iff:
  "where_col p c df = Inr out \<longleftrightarrow>
     c \<in> set (columns df) \<and> out = df\<lparr>rows := filter (\<lambda>r. p (r c)) (rows df)\<rparr>"
proof -
  have "select_rows df (map p (map (\<lambda>r. r c) (rows df))) = df\<lparr>rows := filter (\<lambda>r. p (r c)) (rows df)\<rparr>"
    using select_rows_map[of df "\<lambda>r. p (r c)"] by (simp add: comp_def)
  then show ?thesis
    by (auto simp: where_col_def bind_err_Inr_iff get_col_Inr_iff)
qed

section \<open>Dropping duplicates\<close>

lemma kept_first_occurrences:
  "map snd (filter (\<lambda>(d, r). \<not> d) (zip (duplicated_from seen (map key rs)) rs))
     = filter (\<lambda>r. key r \<notin> set seen) (first_occurrences key rs)"
proof (induction rs arbitrary: seen)
  case Nil
  then show ?case by simp
next
  case (Cons r rs)
  have "filter (\<lambda>x. key x \<notin> set (key r # seen)) (first_occurrences key rs)
      = filter (\<lambda>x. key x \<notin> set seen) (filter (\<lambda>x. key x \<noteq> key r) (first_occurrences key rs))"
    by (auto intro: filter_cong)
  with Cons[of "key r # seen"] show ?case by simp
qed

lemma select_not_duplicated:
  "select_rows df (map Not (duplicated (map key (rows df))))
     = df\<lparr>rows := first_occurrences key (rows df)\<rparr>"
proof -
  have "map snd (filter fst (zip (map Not ds) rs)) = map snd (filter (\<lambda>(d, r). \<not> d) (zip ds rs))"
    for ds and rs :: "(string \<Rightarrow> cell) list"
    by (induction ds rs rule: list_induct2') simp_all
  then show ?thesis
    using kept_first_occurrences[of "[]" key "rows df"]
    by (simp add: select_rows_def duplicated_def)
qed

lemma first_occurrences_key_cong:
  "(\<And>x y. (k1 x = k1 y) = (k2 x = k2 y)) \<Longrightarrow> first_occurrences k1 rs = first_occurrences k2 rs"
  by (induction rs) simp_all

lemma drop_duplicates_Inr_iff:
  "drop_duplicates [c] df = Inr out \<longleftrightarrow>
     c \<in> set (columns df) \<and> out = df\<lparr>rows := first_occurrences (\<lambda>r. r c) (rows df)\<rparr>"
proof -
  have k: "first_occurrences (row_key [c]) rs = first_occurrences (\<lambda>r. r c) rs" for rs
    by (rule first_occurrences_key_cong) (simp add: row_key_def)
  show ?thesis
  proof (cases "c \<in> set (columns df)")
    case True
    then show ?thesis
      by (auto simp: drop_duplicates_def df_duplicated_def select_not_duplicated k)
  next
    case False
    then show ?thesis by (simp add: drop_duplicates_def df_duplicated_def)
  qed
qed

lemma set_first_occurrences_subset: "set (first_occurrences key rs) \<subseteq> set rs"
  by (induction rs) auto

lemma distinct_first_occurrences: "distinct (map key (first_occurrences key rs))"
proof (induction rs)
  case Nil
  then show ?case by simp
next
  case (Cons r rs)
  then show ?case by (auto simp: distinct_map_filter)
qed

lemma keys_first_occurrences: "key ` set (first_occurrences key rs) = key ` set rs"
proof (induction rs)
  case Nil
  then show ?case by simp
next
  case (Cons r rs)
  have "key ` set (filter (\<lambda>x. key x \<noteq> key r) xs) = key ` set xs - {key r}" for xs
    by auto
  with Cons show ?case by auto
qed

lemma find_first_occurrences:
  "find (\<lambda>r. key r = k) (first_occurrences key rs) = find (\<lambda>r. key r = k) rs"
proof (induction rs)
  case Nil
  then show ?case by simp
next
  case (Cons r rs)
  have "find (\<lambda>x. key x = k) (filter (\<lambda>x. key x \<noteq> key r) xs) = find (\<lambda>x. key x = k) xs"
    if "key r \<noteq> k" for xs
    using that by (induction xs) auto
  with Cons show ?case by auto
qed


lemma where_col_Inr:
  "c \<in> set (columns df) \<Longrightarrow> where_col p c df = Inr (df\<lparr>rows := filter (\<lambda>r. p (r c)) (rows df)\<rparr>)"
  by (simp add: where_col_Inr_iff)

lemma drop_duplicates_Inr:
  "c \<in> set (columns df) \<Longrightarrow>
   drop_duplicates [c] df = Inr (df\<lparr>rows := first_occurrences (\<lambda>r. r c) (rows df)\<rparr>)"
  by (simp add: drop_duplicates_Inr_iff)

lemma apply_col_err_Inr:
  "c \<in> set (columns df) \<Longrightarrow> mapM_err f (map (\<lambda>r. r c) (rows df)) = Inr ws \<Longrightarrow>
   apply_col_err f c df = Inr (df\<lparr>rows := map (\<lambda>(r, v). r(c := v)) (zip (rows df) ws)\<rparr>)"
  by (simp add: apply_col_err_Inr_iff)

lemma dedup_step:
  assumes "run_steps [drop_duplicates [c]] df = Inr out"
  shows "columns out = columns df
     \<and> rows out = first_occurrences (\<lambda>r. r c) (rows df)
     \<and> distinct (map (\<lambda>r. r c) (rows out))
     \<and> (\<forall>k. find (\<lambda>r. r c = k) (rows out) = find (\<lambda>r. r c = k) (rows df))"
proof -
  from assms have "out = df\<lparr>rows := first_occurrences (\<lambda>r. r c) (rows df)\<rparr>"
    by (simp add: bind_err_Inr_iff drop_duplicates_Inr_iff)
  then show ?thesis
    by (simp add: distinct_first_occurrences find_first_occurrences)
qed

text \<open>
  C2 (amended). \<open>clean_products\<close>, \<open>clean_stores\<close> and \<open>clean_customers\<close>, when they return,
  return a table in which no two rows have the same \<open>product_code\<close>, \<open>store_code\<close> and
  \<open>customer_code\<close>: of the rows of the normalised table that passed the numeric filters,
  the first in table order with each key is kept and the later ones are dropped, so the
  first row found with a key is the same before and after.
\<close>

theorem dimension_keys_unique:
  "(clean_products P raw = Inr out \<longrightarrow>
      (\<exists>df. run_steps [normalize_products P, drop_invalid_products] raw = Inr df
         \<and> columns out = columns df
         \<and> rows out = first_occurrences (\<lambda>r. r ''product_code'') (rows df)
         \<and> distinct (map (\<lambda>r. r ''product_code'') (rows out))
         \<and> (\<forall>k. find (\<lambda>r. r ''product_code'' = k) (rows out)
                = find (\<lambda>r. r ''product_code'' = k) (rows df))))
   \<and> (clean_stores P raw = Inr out \<longrightarrow>
      (\<exists>df. run_steps [normalize_stores P, drop_invalid_stores] raw = Inr df
         \<and> columns out = columns df
         \<and> rows out = first_occurrences (\<lambda>r. r ''store_code'') (rows df)
         \<and> distinct (map (\<lambda>r. r ''store_code'') (rows out))
         \<and> (\<forall>k. find (\<lambda>r. r ''store_code'' = k) (rows out)
                = find (\<lambda>r. r ''store_code'' = k) (rows df))))
   \<and> (clean_customers P raw = Inr out \<longrightarrow>
      (\<exists>df. normalize_customers P raw = Inr df
         \<and> columns out = columns df
         \<and> rows out = first_occurrences (\<lambda>r. r ''customer_code'') (rows df)
         \<and> distinct (map (\<lambda>r. r ''customer_code'') (rows out))
         \<and> (\<forall>k. find (\<lambda>r. r ''customer_code'' = k) (rows out)
                = find (\<lambda>r. r ''customer_code'' = k) (rows df))))"
proof (intro conjI impI)
  assume "clean_products P raw = Inr out"
  then obtain d1 d2 where 1: "normalize_products P raw = Inr d1"
    and 2: "drop_invalid_products d1 = Inr d2"
    and 3: "run_steps [drop_duplicates [''product_code'']] d2 = Inr out"
    by (auto simp: clean_products_def bind_err_Inr_iff)
  from 1 2 have "run_steps [normalize_products P, drop_invalid_products] raw = Inr d2"
    by simp
  with dedup_step[OF 3]
  show "\<exists>df. run_steps [normalize_products P, drop_invalid_products] raw = Inr df
         \<and> columns out = columns df
         \<and> rows out = first_occurrences (\<lambda>r. r ''product_code'') (rows df)
         \<and> distinct (map (\<lambda>r. r ''product_code'') (rows out))
         \<and> (\<forall>k. find (\<lambda>r. r ''product_code'' = k) (rows out)
                = find (\<lambda>r. r ''product_code'' = k) (rows df))"
    by blast
next
  assume "clean_stores P raw = Inr out"
  then obtain d1 d2 where 1: "normalize_stores P raw = Inr d1"
    and 2: "drop_invalid_stores d1 = Inr d2"
    and 3: "run_steps [drop_duplicates [''store_code'']] d2 = Inr out"
    by (auto simp: clean_stores_def bind_err_Inr_iff)
  from 1 2 have "run_steps [normalize_stores P, drop_invalid_stores] raw = Inr d2"
    by simp
  with dedup_step[OF 3]
  show "\<exists>df. run_steps [normalize_stores P, drop_invalid_stores] raw = Inr df
         \<and> columns out = columns df
         \<and> rows out = first_occurrences (\<lambda>r. r ''store_code'') (rows df)
         \<and> distinct (map (\<lambda>r. r ''store_code'') (rows out))
         \<and> (\<forall>k. find (\<lambda>r. r ''store_code'' = k) (rows out)
                = find (\<lambda>r. r ''store_code'' = k) (rows df))"
    by blast
next
  assume "clean_customers P raw = Inr out"
  then obtain d1 where 1: "normalize_customers P raw = Inr d1"
    and 3: "run_steps [drop_duplicates [''customer_code'']] d1 = Inr out"
    by (auto simp: clean_customers_def bind_err_Inr_iff)
  with dedup_step[OF 3]
  show "\<exists>df. normalize_customers P raw = Inr df
         \<and> columns out = columns df
         \<and> rows out = first_occurrences (\<lambda>r. r ''customer_code'') (rows df)
         \<and> distinct (map (\<lambda>r. r ''customer_code'') (rows out))
         \<and> (\<forall>k. find (\<lambda>r. r ''customer_code'' = k) (rows out)
                = find (\<lambda>r. r ''customer_code'' = k) (rows df))"
    by blast
qed


lemmas frame_eval = run_steps.simps bind_err.simps mapM_err.simps apply_col_def apply_col_err_def
  where_col_def get_col_def set_col_def select_rows_def drop_duplicates_def df_duplicated_def
  duplicated_def duplicated_from.simps row_key_def standardize_cell_def

text \<open>
  Three customers, the first two with the key \<open>cust-7\<close>: the first and the third are kept.
\<close>

theorem dimension_keys_unique_witness:
  "\<forall>P. \<exists>out. clean_customers P example_customers = Inr out
     \<and> map (\<lambda>r. r ''customer_code'') (rows out) = [Str ''cust-7'', Str ''cust-8'']
     \<and> map (\<lambda>r. r ''email'') (rows out) = [Str ''a@x.org'', Str ''c@x.org'']
     \<and> distinct (map (\<lambda>r. r ''customer_code'') (rows out))"
proof
  fix P
  have "\<exists>out. clean_customers P example_customers = Inr out
     \<and> map (\<lambda>r. r ''customer_code'') (rows out) = [Str ''cust-7'', Str ''cust-8'']
     \<and> map (\<lambda>r. r ''email'') (rows out) = [Str ''a@x.org'', Str ''c@x.org'']"
    by (simp add: clean_customers_def normalize_customers_def example_customers_def frame_eval
        key_eval)
  then obtain out where o: "clean_customers P example_customers = Inr out
     \<and> map (\<lambda>r. r ''customer_code'') (rows out) = [Str ''cust-7'', Str ''cust-8'']
     \<and> map (\<lambda>r. r ''email'') (rows out) = [Str ''a@x.org'', Str ''c@x.org'']" ..
  then have out: "clean_customers P example_customers = Inr out" by (rule conjunct1)
  from dimension_keys_unique[of P example_customers out]
  have "clean_customers P example_customers = Inr out \<longrightarrow>
      (\<exists>df. normalize_customers P example_customers = Inr df
         \<and> columns out = columns df
         \<and> rows out = first_occurrences (\<lambda>r. r ''customer_code'') (rows df)
         \<and> distinct (map (\<lambda>r. r ''customer_code'') (rows out))
         \<and> (\<forall>k. find (\<lambda>r. r ''customer_code'' = k) (rows out)
                = find (\<lambda>r. r ''customer_code'' = k) (rows df)))"
    by (elim conjE)
  with out have "distinct (map (\<lambda>r. r ''customer_code'') (rows out))"
    by (elim impE exE conjE)
  with o
  show "\<exists>out. clean_customers P example_customers = Inr out
     \<and> map (\<lambda>r. r ''customer_code'') (rows out) = [Str ''cust-7'', Str ''cust-8'']
     \<and> map (\<lambda>r. r ''email'') (rows out) = [Str ''a@x.org'', Str ''c@x.org'']
     \<and> distinct (map (\<lambda>r. r ''customer_code'') (rows out))"
    by (intro exI[of _ out]) simp
qed

text \<open>
  C2 as stated fails for Region: \<open>clean_regions\<close> only rewrites \<open>region_name\<close>, and two rows
  with the region code \<open>R1\<close> are both in its result.
\<close>

theorem clean_regions_keeps_duplicates_counterexample:
  "\<forall>P. \<exists>out. clean_regions P example_regions = Inr out
     \<and> map (\<lambda>r. r ''region_code'') (rows out) = [Str ''R1'', Str ''R1'']
     \<and> \<not> distinct (map (\<lambda>r. r ''region_code'') (rows out))"
  by (simp add: clean_regions_def example_regions_def frame_eval)

section \<open>The numeric filters\<close>

lemma present_ge_iff: "ge_floor m c = present_ge m c"
  by (cases c) (simp_all add: present_ge_def)

lemma notna_present: "present_ge m c \<Longrightarrow> notna c"
  by (auto simp: present_ge_def notna_def)

text \<open>
  C8 (amended). The filters of the cleaners (\<open>clean_orders\<close> lines 41 to 44,
  \<open>clean_products\<close> lines 25 and 26, \<open>clean_stores\<close> lines 36 and 37) keep, in table order,
  exactly the rows whose numeric cells are present and at least their floor: quantity,
  unit price and unit cost at least 0, base price at least 0, square feet at least 1. A
  comparison with a missing value is false, so a row whose quantity or unit price is
  missing after coercion is dropped like a row whose unit cost is missing.
\<close>

theorem floor_filters:
  "(drop_invalid_orders df = Inr out \<longrightarrow>
      columns out = columns df \<and>
      rows out = filter (\<lambda>r. present_ge 0 (r ''quantity'') \<and> present_ge 0 (r ''unit_price'')
                             \<and> present_ge 0 (r ''unit_cost'')) (rows df))
   \<and> (drop_invalid_products df = Inr out \<longrightarrow>
      columns out = columns df \<and>
      rows out = filter (\<lambda>r. present_ge 0 (r ''base_price'')) (rows df))
   \<and> (drop_invalid_stores df = Inr out \<longrightarrow>
      columns out = columns df \<and>
      rows out = filter (\<lambda>r. present_ge 1 (r ''square_feet'')) (rows df))"
proof (intro conjI impI)
  assume "drop_invalid_orders df = Inr out"
  then have out: "out = df\<lparr>rows := filter (\<lambda>r. ge_floor 0 (r ''unit_cost''))
      (filter (\<lambda>r. ge_floor 0 (r ''unit_price''))
        (filter (\<lambda>r. ge_floor 0 (r ''quantity''))
          (filter (\<lambda>r. notna (r ''unit_cost'')) (rows df))))\<rparr>"
    by (auto simp: drop_invalid_orders_def bind_err_Inr_iff where_col_Inr_iff)
  then show "columns out = columns df" by simp
  from out show "rows out = filter (\<lambda>r. present_ge 0 (r ''quantity'') \<and> present_ge 0 (r ''unit_price'')
                             \<and> present_ge 0 (r ''unit_cost'')) (rows df)"
    by (auto simp: present_ge_iff dest: notna_present intro: filter_cong)
next
  assume "drop_invalid_products df = Inr out"
  then have out: "out = df\<lparr>rows := filter (\<lambda>r. ge_floor 0 (r ''base_price''))
          (filter (\<lambda>r. notna (r ''base_price'')) (rows df))\<rparr>"
    by (auto simp: drop_invalid_products_def bind_err_Inr_iff where_col_Inr_iff)
  then show "columns out = columns df" by simp
  from out show "rows out = filter (\<lambda>r. present_ge 0 (r ''base_price'')) (rows df)"
    by (auto simp: present_ge_iff dest: notna_present intro: filter_cong)
next
  assume "drop_invalid_stores df = Inr out"
  then have out: "out = df\<lparr>rows := filter (\<lambda>r. ge_floor 1 (r ''square_feet''))
          (filter (\<lambda>r. notna (r ''square_feet'')) (rows df))\<rparr>"
    by (auto simp: drop_invalid_stores_def bind_err_Inr_iff where_col_Inr_iff)
  then show "columns out = columns df" by simp
  from out show "rows out = filter (\<lambda>r. present_ge 1 (r ''square_feet'')) (rows df)"
    by (auto simp: present_ge_iff dest: notna_present intro: filter_cong)
qed

lemmas order_eval = clean_orders_def normalize_order_fields_def coerce_order_numbers_def
  drop_invalid_orders_def renumber_duplicates_def order_num_def order_columns_def
  example_order_line_def lower_strip_def notna_def Let_def frame_eval key_eval

text \<open>
  Of a valid order line and three copies of it with the quantity missing, the unit price
  negative and the unit cost missing, only the valid one is kept.
\<close>

theorem floor_filters_witness:
  "\<exists>out. drop_invalid_orders \<lparr>columns = order_columns,
        rows = [example_order_line, example_order_line(''quantity'' := Missing),
                example_order_line(''unit_price'' := Num (- 1)),
                example_order_line(''unit_cost'' := Missing)]\<rparr> = Inr out
     \<and> rows out = [example_order_line]"
proof -
  let ?df = "\<lparr>columns = order_columns,
        rows = [example_order_line, example_order_line(''quantity'' := Missing),
                example_order_line(''unit_price'' := Num (- 1)),
                example_order_line(''unit_cost'' := Missing)]\<rparr>"
  have "\<exists>out. drop_invalid_orders ?df = Inr out"
    by (simp add: drop_invalid_orders_def order_columns_def frame_eval example_order_line_def notna_def)
  then obtain out where out: "drop_invalid_orders ?df = Inr out" ..
  from floor_filters[of ?df out, THEN conjunct1, THEN mp, OF out, THEN conjunct2]
  have "rows out = filter (\<lambda>r. present_ge 0 (r ''quantity'') \<and> present_ge 0 (r ''unit_price'')
                             \<and> present_ge 0 (r ''unit_cost'')) (rows ?df)" .
  then have "rows out = [example_order_line]"
    by (simp add: present_ge_def example_order_line_def)
  with out show ?thesis by (intro exI[of _ out]) simp
qed

text \<open>
  C8 as stated fails: \<open>clean_orders\<close> drops an order line whose only defect is a missing
  quantity.
\<close>

theorem missing_quantity_dropped_counterexample:
  "\<forall>P. \<exists>out. clean_orders P \<lparr>columns = order_columns,
        rows = [example_order_line(''quantity'' := Missing)]\<rparr> = Inr out \<and> rows out = []"
  by (simp add: order_eval)


section \<open>Referential integrity at the cleaning stage\<close>

lemma enforce_ri_Inr_iff:
  "enforce_ri st pr od = Inr out \<longleftrightarrow>
     ''store_code'' \<in> set (columns st) \<and> ''product_code'' \<in> set (columns pr) \<and>
     ''store_code'' \<in> set (columns od) \<and> ''product_code'' \<in> set (columns od) \<and>
     out = od\<lparr>rows := filter (\<lambda>r.
        (r ''store_code'' \<in> (\<lambda>s. s ''store_code'') ` set (rows st) \<or> r ''store_code'' = Str ''store-0'') \<and>
        (r ''product_code'' \<in> (\<lambda>p. p ''product_code'') ` set (rows pr) \<or> r ''product_code'' = Str ''prd-0''))
       (rows od)\<rparr>"
proof -
  have z: "zip (map f rs) (map g rs) = map (\<lambda>r. (f r, g r)) rs"
    for f g :: "(string \<Rightarrow> cell) \<Rightarrow> cell" and rs
    by (induction rs) simp_all
  have "select_rows od (map (\<lambda>(s, p). Q s p) (zip (map (\<lambda>r. r ''store_code'') (rows od))
            (map (\<lambda>r. r ''product_code'') (rows od))))
      = od\<lparr>rows := filter (\<lambda>r. Q (r ''store_code'') (r ''product_code'')) (rows od)\<rparr>" for Q
    using select_rows_map[of od "\<lambda>r. Q (r ''store_code'') (r ''product_code'')"]
    by (simp add: z comp_def)
  then show ?thesis
    by (auto simp: enforce_ri_def bind_err_Inr_iff get_col_Inr_iff)
qed

text \<open>
  C3. The filter of \<open>run_cleaning\<close> (lines 43 to 55), when the key columns exist, keeps in
  table order exactly the order lines whose store code is among the store codes of the
  cleaned stores or is \<open>store-0\<close>, and whose product code is among the product codes of the
  cleaned products or is \<open>prd-0\<close>. The customer code plays no part: with any other customer
  codes the same lines are kept. \<open>run_cleaning\<close> returns the cleaned stores and products as
  the cleaners return them, and the orders as this filter returns them.
\<close>

theorem enforce_ri_retains:
  "(enforce_ri stores_clean products_clean orders_clean = Inr out \<longrightarrow>
      columns out = columns orders_clean \<and>
      rows out = filter (\<lambda>r.
          (r ''store_code'' \<in> (\<lambda>s. s ''store_code'') ` set (rows stores_clean) \<or>
           r ''store_code'' = Str ''store-0'') \<and>
          (r ''product_code'' \<in> (\<lambda>p. p ''product_code'') ` set (rows products_clean) \<or>
           r ''product_code'' = Str ''prd-0''))
        (rows orders_clean) \<and>
      enforce_ri stores_clean products_clean
          (orders_clean\<lparr>rows := map (\<lambda>r. r(''customer_code'' := f r)) (rows orders_clean)\<rparr>)
        = Inr (out\<lparr>rows := map (\<lambda>r. r(''customer_code'' := f r)) (rows out)\<rparr>))
   \<and> (run_cleaning P raw = Inr cleaned \<longrightarrow>
      clean_stores P (stores raw) = Inr (stores cleaned) \<and>
      clean_products P (products raw) = Inr (products cleaned) \<and>
      (\<exists>orders_clean. clean_orders P (orders raw) = Inr orders_clean \<and>
         enforce_ri (stores cleaned) (products cleaned) orders_clean = Inr (orders cleaned)))"
proof (intro conjI impI)
  let ?keep = "\<lambda>r::string \<Rightarrow> cell.
          (r ''store_code'' \<in> (\<lambda>s. s ''store_code'') ` set (rows stores_clean) \<or>
           r ''store_code'' = Str ''store-0'') \<and>
          (r ''product_code'' \<in> (\<lambda>p. p ''product_code'') ` set (rows products_clean) \<or>
           r ''product_code'' = Str ''prd-0'')"
  assume a: "enforce_ri stores_clean products_clean orders_clean = Inr out"
  then have cols: "''store_code'' \<in> set (columns stores_clean)"
      "''product_code'' \<in> set (columns products_clean)"
      "''store_code'' \<in> set (columns orders_clean)" "''product_code'' \<in> set (columns orders_clean)"
    and out: "out = orders_clean\<lparr>rows := filter ?keep (rows orders_clean)\<rparr>"
    by (simp_all add: enforce_ri_Inr_iff)
  from out show "columns out = columns orders_clean" by simp
  from out show "rows out = filter ?keep (rows orders_clean)" by simp
  have "filter ?keep (map (\<lambda>r. r(''customer_code'' := f r)) (rows orders_clean))
      = map (\<lambda>r. r(''customer_code'' := f r)) (filter ?keep (rows orders_clean))"
    by (simp add: filter_map comp_def)
  with cols out
  show "enforce_ri stores_clean products_clean
          (orders_clean\<lparr>rows := map (\<lambda>r. r(''customer_code'' := f r)) (rows orders_clean)\<rparr>)
        = Inr (out\<lparr>rows := map (\<lambda>r. r(''customer_code'' := f r)) (rows out)\<rparr>)"
    by (auto simp: enforce_ri_Inr_iff intro: filter_cong)
next
  assume "run_cleaning P raw = Inr cleaned"
  then obtain rc pc sc cc oc ok where
    "clean_regions P (regions raw) = Inr rc" "clean_products P (products raw) = Inr pc"
    "clean_stores P (stores raw) = Inr sc" "clean_customers P (customers raw) = Inr cc"
    "clean_orders P (orders raw) = Inr oc" "enforce_ri sc pc oc = Inr ok"
    "cleaned = \<lparr>regions = rc, products = pc, stores = sc, customers = cc, orders = ok\<rparr>"
    by (auto simp: run_cleaning_def bind_err_Inr_iff)
  then show "clean_stores P (stores raw) = Inr (stores cleaned)"
    "clean_products P (products raw) = Inr (products cleaned)"
    "\<exists>orders_clean. clean_orders P (orders raw) = Inr orders_clean \<and>
         enforce_ri (stores cleaned) (products cleaned) orders_clean = Inr (orders cleaned)"
    by auto
qed

text \<open>
  With the store \<open>store-1\<close> and the product \<open>prd-1\<close>: the lines with \<open>store-0\<close> and with \<open>prd-0\<close>
  are kept, whatever their customer, and the lines with \<open>store-999\<close> and \<open>prd-7\<close> are dropped.
\<close>

theorem enforce_ri_retains_witness:
  "\<exists>out. enforce_ri example_stores_clean example_products_clean example_orders_clean = Inr out
     \<and> map (\<lambda>r. [r ''store_code'', r ''product_code'', r ''customer_code'']) (rows out)
        = [[Str ''store-0'', Str ''prd-1'', Str ''cust-42''],
           [Str ''store-1'', Str ''prd-0'', Str ''cust-42'']]"
proof -
  have "\<exists>out. enforce_ri example_stores_clean example_products_clean example_orders_clean = Inr out"
    by (simp add: enforce_ri_Inr_iff example_stores_clean_def example_products_clean_def
        example_orders_clean_def)
  then obtain out
    where out: "enforce_ri example_stores_clean example_products_clean example_orders_clean = Inr out" ..
  from enforce_ri_retains[of example_stores_clean example_products_clean example_orders_clean out,
      THEN conjunct1, THEN mp, OF out, THEN conjunct2, THEN conjunct1]
  have "map (\<lambda>r. [r ''store_code'', r ''product_code'', r ''customer_code'']) (rows out)
        = [[Str ''store-0'', Str ''prd-1'', Str ''cust-42''],
           [Str ''store-1'', Str ''prd-0'', Str ''cust-42'']]"
    by (simp add: example_stores_clean_def example_products_clean_def example_orders_clean_def)
  with out show ?thesis by (intro exI[of _ out]) simp
qed

section \<open>Fixed points of the normalisation\<close>

subsection \<open>Texts\<close>




lemma of_char_minus_mod: "((of_char c :: nat) - k) mod 256 = of_char c - k"
  by (simp add: less_imp_diff_less)



lemma is_space_upper_char: "is_space (upper_char c) = is_space c"
  by (simp add: upper_char_def is_lower_def is_space_def Let_def of_char_minus_mod) arith




















subsection \<open>Column statements and their fixed points\<close>








subsection \<open>Fixed points of the cell functions\<close>











section \<open>The frame of \<open>auto_parse_dates\<close>\<close>










end
